theory Spec2Isabelle
  imports Main
begin

section \<open>A model of \<^verbatim>\<open>src/pydownloader/downloader.py\<close>\<close>

text \<open>
  The downloader is one Python module. Its functions act on the file system, the network,
  the process-wide \<^verbatim>\<open>done_event\<close>, the random generator and the \<^verbatim>\<open>rich\<close> progress
  display. The model passes all of this explicitly: a record \<open>world\<close> holds the mutable
  state, a record \<open>env\<close> holds the library functions the module calls but does not define
  (the header parser, the MIME table, \<^verbatim>\<open>int\<close>, \<^verbatim>\<open>urlparse\<close>, the HTTP transport), and every
  function that may raise returns a sum whose left injection is the exception.
\<close>

subsection \<open>Exceptions\<close>

text \<open>
  The four exception classes of the module (lines 58 to 71), and the built-in and library
  exceptions its statements can raise.
\<close>

datatype exn =
    DestinationDoesNotExist
  | DestinationIsNotDirectory
  | HTTPResponse4xx
  | HTTPResponse5xx
  | ConnectionError
  | RequestException
  | KeyError
  | AttributeError
  | ValueError
  | FileNotFoundError
  | IsADirectoryError
  | NotADirectoryError
  | SystemExit

subsection \<open>Random words (lines 74 to 76)\<close>

text \<open>
  The random generator is a stream of draws, \<open>nat \<Rightarrow> nat\<close>; \<^verbatim>\<open>random.choice(letters)\<close>
  reads the first draw, picks the letter at that index modulo the length, and leaves the
  rest of the stream.
\<close>

type_synonym random = "nat \<Rightarrow> nat"

definition ascii_lowercase :: string where
  "ascii_lowercase = ''abcdefghijklmnopqrstuvwxyz''"

definition choice :: "string \<Rightarrow> random \<Rightarrow> char \<times> random" where
  "choice letters r = (letters ! (r 0 mod length letters), \<lambda>i. r (Suc i))"

fun randomword :: "nat \<Rightarrow> random \<Rightarrow> string \<times> random" where
  "randomword 0 r = ([], r)"
| "randomword (Suc n) r =
     (let (c, r1) = choice ascii_lowercase r;
          (cs, r2) = randomword n r1
      in (c # cs, r2))"

subsection \<open>Paths and the file system\<close>

text \<open>
  A path is the text of a \<^verbatim>\<open>pathlib\<close> path. The file system maps a path to what the
  process finds there (a relative path is looked up from the working directory, whose own
  path is \<^verbatim>\<open>.\<close>). \<^verbatim>\<open>os.path.isfile\<close> holds of regular files only.
\<close>

type_synonym path = string
type_synonym bytes = string

datatype node = File bytes | Dir

type_synonym filesystem = "path \<rightharpoonup> node"

definition exists_path :: "filesystem \<Rightarrow> path \<Rightarrow> bool" where
  "exists_path f p = (f p \<noteq> None)"

definition is_dir :: "filesystem \<Rightarrow> path \<Rightarrow> bool" where
  "is_dir f p = (f p = Some Dir)"

definition isfile :: "filesystem \<Rightarrow> path \<Rightarrow> bool" where
  "isfile f p = (case f p of Some (File _) \<Rightarrow> True | _ \<Rightarrow> False)"

subsection \<open>Collision avoidance (lines 79 to 85)\<close>

text \<open>The decimal text of a number, as an f-string prints it.\<close>

definition digit :: "nat \<Rightarrow> char" where
  "digit n = ''0123456789'' ! n"

function decimal :: "nat \<Rightarrow> string" where
  "decimal n = (if n < 10 then [digit n] else decimal (n div 10) @ [digit (n mod 10)])"
  by pat_completeness auto
termination
  by (relation "measure id") auto

declare decimal.simps [simp del]

definition numbered :: "string \<Rightarrow> nat \<Rightarrow> string" where
  "numbered filename i = filename @ ''.'' @ decimal i"

text \<open>
  The loop \<^verbatim>\<open>for i in range(1, 1000)\<close> with its early return: \<open>probe f filename i\<close> is
  the loop from index \<open>i\<close> on, \<open>None\<close> when it runs off the end of the range.
\<close>

function probe :: "filesystem \<Rightarrow> string \<Rightarrow> nat \<Rightarrow> string option" where
  "probe f filename i =
     (if i < 1000
      then (if \<not> isfile f (numbered filename i) then Some (numbered filename i)
            else probe f filename (Suc i))
      else None)"
  by pat_completeness auto
termination
  by (relation "measure (\<lambda>(f, filename, i). 1000 - i)") auto

declare probe.simps [simp del]

definition find_next_filename :: "filesystem \<Rightarrow> string \<Rightarrow> random \<Rightarrow> string \<times> random" where
  "find_next_filename f filename r =
     (if \<not> isfile f filename then (filename, r)
      else (case probe f filename 1 of
              Some name \<Rightarrow> (name, r)
            | None \<Rightarrow> (let (word, r1) = randomword 16 r in (filename @ ''.'' @ word, r1))))"

subsection \<open>The libraries the module calls\<close>

text \<open>
  A response of \<^verbatim>\<open>requests.get(..., stream=True)\<close>: the three headers the module reads
  (\<open>None\<close> when the header is absent), and what happens while the body is iterated. The
  body is a list of events: the next chunk of \<^verbatim>\<open>iter_content\<close> arrives, or the interrupt
  signal is delivered and \<^verbatim>\<open>handle_sigint\<close> runs. An interrupt delivered between a write
  and the test that follows it is observed by that test, exactly as one delivered just
  before the write, so the list places interrupts between chunks only.
\<close>

datatype event = Data bytes | SIGINT

record response =
  content_disposition :: "string option"
  content_length :: "string option"
  content_type :: "string option"
  body :: "event list"

text \<open>
  The functions of other libraries, taken as parameters:
  \<^item> \<open>value_parser\<close>: the \<^verbatim>\<open>(name, value)\<close> pairs that
    \<^verbatim>\<open>ContentDispositionHeader().value_parser(header_value).params\<close> yields;
  \<^item> \<open>guess_extension\<close>: \<^verbatim>\<open>mimetypes.guess_extension\<close>;
  \<^item> \<open>py_int\<close>: the built-in \<^verbatim>\<open>int\<close> on a string, \<open>None\<close> where it raises ValueError;
  \<^item> \<open>urlparse_path\<close>: \<^verbatim>\<open>urlparse(url).path\<close>;
  \<^item> \<open>requests_get\<close>: what \<^verbatim>\<open>requests.get\<close> does for a URL: it raises
    \<^verbatim>\<open>requests.exceptions.ConnectionError\<close>, or another exception of \<^verbatim>\<open>requests\<close>, or returns
    a response.
\<close>

datatype transport_error = Connection_Failed | Request_Failed

record env =
  value_parser :: "string \<Rightarrow> (string \<times> string) list"
  guess_extension :: "string \<Rightarrow> string option"
  py_int :: "string \<Rightarrow> int option"
  urlparse_path :: "string \<Rightarrow> string"
  requests_get :: "string \<Rightarrow> transport_error + response"

subsection \<open>The state of the process\<close>

text \<open>
  A task of the progress display: the \<^verbatim>\<open>filename\<close> field shown, the total, the bytes
  reported so far, and whether the task was started.
\<close>

record task =
  filename :: string
  total :: "int option"
  completed :: nat
  started :: bool

record world =
  fs :: filesystem
  done_event :: bool
  tasks :: "nat \<rightharpoonup> task"
  next_task :: nat
  console :: "string list"
  rng :: random
  requested :: "string list"

text \<open>
  The operations of \<^verbatim>\<open>progress\<close> that the module uses. \<^verbatim>\<open>rich\<close> raises on a handle that
  is not registered; \<^verbatim>\<open>download\<close> registers every handle before its task runs, and the
  model leaves the display unchanged on an unknown handle.
\<close>

definition add_task :: "string \<Rightarrow> world \<Rightarrow> nat \<times> world" where
  "add_task name w =
     (next_task w,
      w\<lparr>tasks := (tasks w)(next_task w \<mapsto>
            \<lparr>filename = name, total = Some 100, completed = 0, started = False\<rparr>),
        next_task := Suc (next_task w)\<rparr>)"

definition update_task :: "nat \<Rightarrow> (task \<Rightarrow> task) \<Rightarrow> world \<Rightarrow> world" where
  "update_task task_id g w =
     (case tasks w task_id of
        None \<Rightarrow> w
      | Some t \<Rightarrow> w\<lparr>tasks := (tasks w)(task_id \<mapsto> g t)\<rparr>)"

definition update_filename :: "nat \<Rightarrow> string \<Rightarrow> world \<Rightarrow> world" where
  "update_filename task_id name = update_task task_id (\<lambda>t. t\<lparr>filename := name\<rparr>)"

definition update_total :: "nat \<Rightarrow> int option \<Rightarrow> world \<Rightarrow> world" where
  "update_total task_id n =
     update_task task_id (\<lambda>t. case n of None \<Rightarrow> t | Some k \<Rightarrow> t\<lparr>total := Some k\<rparr>)"

definition update_advance :: "nat \<Rightarrow> nat \<Rightarrow> world \<Rightarrow> world" where
  "update_advance task_id n = update_task task_id (\<lambda>t. t\<lparr>completed := completed t + n\<rparr>)"

definition start_task :: "nat \<Rightarrow> world \<Rightarrow> world" where
  "start_task task_id = update_task task_id (\<lambda>t. t\<lparr>started := True\<rparr>)"

definition remove_task :: "nat \<Rightarrow> world \<Rightarrow> world" where
  "remove_task task_id w = w\<lparr>tasks := (tasks w)(task_id := None)\<rparr>"

definition console_log :: "string \<Rightarrow> world \<Rightarrow> world" where
  "console_log line w = w\<lparr>console := console w @ [line]\<rparr>"

subsection \<open>Destination check and interrupt handler (lines 95 to 107)\<close>

definition directory_path :: "filesystem \<Rightarrow> string \<Rightarrow> exn + path" where
  "directory_path f pathname =
     (if \<not> exists_path f pathname then Inl DestinationDoesNotExist
      else if \<not> is_dir f pathname then Inl DestinationIsNotDirectory
      else Inr pathname)"

definition handle_sigint :: "world \<Rightarrow> world" where
  "handle_sigint w = w\<lparr>done_event := True\<rparr>"

subsection \<open>The disposition header (lines 113 to 116)\<close>

text \<open>
  \<^verbatim>\<open>dict(...)\<close> keeps the last pair of a name; the subscript raises KeyError when the name
  is missing.
\<close>

definition filename_from_content_disposition :: "env \<Rightarrow> string \<Rightarrow> exn + string" where
  "filename_from_content_disposition e header_value =
     (case map_of (rev (value_parser e header_value)) ''filename'' of
        None \<Rightarrow> Inl KeyError
      | Some v \<Rightarrow> Inr v)"

subsection \<open>Joining a path, opening and writing a file\<close>

text \<open>
  \<^verbatim>\<open>path.joinpath(filename)\<close> on path texts: an absolute name replaces the directory, an
  empty name or \<^verbatim>\<open>.\<close> adds nothing, and the directory \<^verbatim>\<open>.\<close> is not printed in front of
  a name. (A name that \<^verbatim>\<open>pathlib\<close> would rewrite, such as one with a doubled slash, is
  joined as it is.)
\<close>

definition joinpath :: "path \<Rightarrow> string \<Rightarrow> path" where
  "joinpath d name =
     (if name = [] \<or> name = ''.'' then d
      else if hd name = CHR ''/'' then name
      else if d = [] \<or> d = ''.'' then name
      else if last d = CHR ''/'' then d @ name
      else d @ ''/'' @ name)"

definition parent :: "path \<Rightarrow> path" where
  "parent p =
     (if CHR ''/'' \<notin> set p then ''.''
      else (let d = rev (tl (dropWhile (\<lambda>c. c \<noteq> CHR ''/'') (rev p)))
            in if d = [] then ''/'' else d))"

text \<open>
  \<^verbatim>\<open>open("wb")\<close>: a directory cannot be opened for writing, the parent must be a
  directory, and otherwise the file is created, or truncated when it is there already.
\<close>

definition open_wb :: "filesystem \<Rightarrow> path \<Rightarrow> exn + filesystem" where
  "open_wb f p =
     (case f p of
        Some Dir \<Rightarrow> Inl IsADirectoryError
      | _ \<Rightarrow> (case f (parent p) of
                None \<Rightarrow> Inl FileNotFoundError
              | Some (File _) \<Rightarrow> Inl NotADirectoryError
              | Some Dir \<Rightarrow> Inr (f(p \<mapsto> File []))))"

definition write_file :: "path \<Rightarrow> bytes \<Rightarrow> world \<Rightarrow> world" where
  "write_file p d w =
     (case fs w p of
        Some (File old) \<Rightarrow> w\<lparr>fs := (fs w)(p \<mapsto> File (old @ d))\<rparr>
      | _ \<Rightarrow> w)"

subsection \<open>The download task (lines 119 to 161)\<close>

text \<open>
  \<^verbatim>\<open>copy_url\<close> returns \<^verbatim>\<open>None\<close> from two places: from inside the loop when
  \<^verbatim>\<open>done_event\<close> is set (line 159) and from the end of its body (after line 161). The
  model tells them apart.
\<close>

datatype outcome = Completed | Cancelled

definition apostrophe :: char where
  "apostrophe = CHR 0x27"

definition downloaded_line :: "string \<Rightarrow> path \<Rightarrow> string" where
  "downloaded_line url output_file_path =
     ''Downloaded '' @ url @ '' to '' @ [apostrophe] @ output_file_path @ [apostrophe]"

definition failed_line :: "string \<Rightarrow> string" where
  "failed_line url =
     ''Failed to download '' @ [apostrophe] @ url @ [apostrophe] @ '': couldn''
       @ [apostrophe] @ ''t connect to server''"

text \<open>Lines 131 to 135: the name from the disposition header, or the default.\<close>

definition choose_filename ::
  "env \<Rightarrow> nat \<Rightarrow> response \<Rightarrow> string \<Rightarrow> world \<Rightarrow> (exn + string) \<times> world" where
  "choose_filename e task_id resp default_filename w =
     (case content_disposition resp of
        None \<Rightarrow> (Inr default_filename, w)
      | Some disposition \<Rightarrow>
          (if disposition = [] then (Inr default_filename, w)
           else (case filename_from_content_disposition e disposition of
                   Inl ex \<Rightarrow> (Inl ex, w)
                 | Inr name \<Rightarrow> (Inr name, update_filename task_id name w))))"

text \<open>
  Lines 138 and 139: the declared length, converted when the header is there and not
  empty. (An empty header value is not converted; the display then gets no new total.)
\<close>

definition read_content_length :: "env \<Rightarrow> response \<Rightarrow> exn + int option" where
  "read_content_length e resp =
     (case content_length resp of
        None \<Rightarrow> Inr None
      | Some text \<Rightarrow>
          (if text = [] then Inr None
           else (case py_int e text of
                   None \<Rightarrow> Inl ValueError
                 | Some n \<Rightarrow> Inr (Some n))))"

text \<open>
  Lines 141 to 148: with no name so far, one is made from the content type.
  \<^verbatim>\<open>response.headers.get("Content-Type")\<close> is \<^verbatim>\<open>None\<close> when the header is absent, and
  \<^verbatim>\<open>None.split\<close> raises AttributeError. \<^verbatim>\<open>find_next_filename\<close> is given the bare name, so
  \<^verbatim>\<open>os.path.isfile\<close> looks it up from the working directory.
\<close>

definition infer_filename ::
  "env \<Rightarrow> response \<Rightarrow> string \<Rightarrow> world \<Rightarrow> (exn + string) \<times> world" where
  "infer_filename e resp name w =
     (if name \<noteq> [] then (Inr name, w)
      else (case content_type resp of
              None \<Rightarrow> (Inl AttributeError, w)
            | Some header \<Rightarrow>
                (let mime = takeWhile (\<lambda>c. c \<noteq> CHR '';'') header;
                     ext = (case guess_extension e mime of None \<Rightarrow> [] | Some x \<Rightarrow> x)
                 in if ext \<noteq> []
                    then (let (found, r) = find_next_filename (fs w) (''index'' @ ext) (rng w)
                          in (Inr found, w\<lparr>rng := r\<rparr>))
                    else (let (word, r) = randomword 12 (rng w)
                          in (Inr (''index.bin.'' @ word), w\<lparr>rng := r\<rparr>)))))"

text \<open>
  Lines 155 to 159: each chunk is written and reported, and only then is \<^verbatim>\<open>done_event\<close>
  read.
\<close>

fun copy_chunks :: "nat \<Rightarrow> path \<Rightarrow> event list \<Rightarrow> world \<Rightarrow> outcome \<times> world" where
  "copy_chunks task_id p [] w = (Completed, w)"
| "copy_chunks task_id p (SIGINT # evs) w = copy_chunks task_id p evs (handle_sigint w)"
| "copy_chunks task_id p (Data d # evs) w =
     (let w1 = write_file p d w;
          w2 = update_advance task_id (length d) w1
      in if done_event w2 then (Cancelled, w2) else copy_chunks task_id p evs w2)"

text \<open>Lines 150 to 161.\<close>

definition write_response ::
  "nat \<Rightarrow> string \<Rightarrow> path \<Rightarrow> int option \<Rightarrow> event list \<Rightarrow> world \<Rightarrow> (exn + outcome) \<times> world" where
  "write_response task_id url output_file_path len evs w =
     (let w1 = update_total task_id len w in
      case open_wb (fs w1) output_file_path of
        Inl ex \<Rightarrow> (Inl ex, w1)
      | Inr f \<Rightarrow>
          (let w2 = start_task task_id (w1\<lparr>fs := f\<rparr>) in
           case copy_chunks task_id output_file_path evs w2 of
             (Cancelled, w3) \<Rightarrow> (Inr Cancelled, w3)
           | (Completed, w3) \<Rightarrow>
               (Inr Completed,
                console_log (downloaded_line url output_file_path) (remove_task task_id w3))))"

definition copy_url ::
  "env \<Rightarrow> nat \<Rightarrow> string \<Rightarrow> path \<Rightarrow> string \<Rightarrow> world \<Rightarrow> (exn + outcome) \<times> world" where
  "copy_url e task_id url dir default_filename w =
     (let w0 = w\<lparr>requested := requested w @ [url]\<rparr> in
      case requests_get e url of
        Inl Connection_Failed \<Rightarrow> (Inl ConnectionError, remove_task task_id w0)
      | Inl Request_Failed \<Rightarrow> (Inl RequestException, w0)
      | Inr resp \<Rightarrow>
          (case choose_filename e task_id resp default_filename w0 of
             (Inl ex, w1) \<Rightarrow> (Inl ex, w1)
           | (Inr name, w1) \<Rightarrow>
               (case read_content_length e resp of
                  Inl ex \<Rightarrow> (Inl ex, w1)
                | Inr len \<Rightarrow>
                    (case infer_filename e resp name w1 of
                       (Inl ex, w2) \<Rightarrow> (Inl ex, w2)
                     | (Inr name2, w2) \<Rightarrow>
                         write_response task_id url (joinpath dir name2) len (body resp) w2))))"

text \<open>
  The name a task settles on: lines 131 to 135 followed by lines 141 to 148, the two
  blocks of \<^verbatim>\<open>copy_url\<close> that decide it.
\<close>

definition resolve ::
  "env \<Rightarrow> nat \<Rightarrow> response \<Rightarrow> string \<Rightarrow> world \<Rightarrow> (exn + string) \<times> world" where
  "resolve e task_id resp default_filename w =
     (case choose_filename e task_id resp default_filename w of
        (Inl ex, w1) \<Rightarrow> (Inl ex, w1)
      | (Inr name, w1) \<Rightarrow> infer_filename e resp name w1)"

subsection \<open>The orchestrator (lines 164 to 189) and the entry point (lines 192 to 207)\<close>

definition last_segment :: "string \<Rightarrow> string" where
  "last_segment s = rev (takeWhile (\<lambda>c. c \<noteq> CHR ''/'') (rev s))"

text \<open>The first loop: one display task and one queued call per URL.\<close>

fun submit_all :: "env \<Rightarrow> string list \<Rightarrow> world \<Rightarrow> (nat \<times> string \<times> string) list \<times> world" where
  "submit_all e [] w = ([], w)"
| "submit_all e (url # urls) w =
     (let default_filename = last_segment (urlparse_path e url);
          (task_id, w1) = add_task default_filename w;
          (rest, w2) = submit_all e urls w1
      in ((task_id, url, default_filename) # rest, w2))"

text \<open>
  The pool has one worker, which runs the queued calls one after the other, each to its
  end, whatever the calls before it returned or raised; leaving the \<^verbatim>\<open>with\<close> block waits
  for the queue to drain. Each future keeps its call's result.
\<close>

fun run_pool ::
  "env \<Rightarrow> path \<Rightarrow> (nat \<times> string \<times> string) list \<Rightarrow> world
     \<Rightarrow> (string \<times> nat \<times> (exn + outcome)) list \<times> world" where
  "run_pool e dir [] w = ([], w)"
| "run_pool e dir ((task_id, url, default_filename) # rest) w =
     (let (r, w1) = copy_url e task_id url dir default_filename w;
          (rs, w2) = run_pool e dir rest w1
      in ((url, task_id, r) # rs, w2))"

text \<open>
  The second loop: \<^verbatim>\<open>future.result()\<close> re-raises what the call raised, and only a
  connection error is caught. With one worker the futures complete in the order of
  submission, which is the order taken here.
\<close>

fun collect :: "(string \<times> nat \<times> (exn + outcome)) list \<Rightarrow> world \<Rightarrow> exn option \<times> world" where
  "collect [] w = (None, w)"
| "collect ((url, task_id, r) # rest) w =
     (case r of
        Inr _ \<Rightarrow> collect rest w
      | Inl ex \<Rightarrow>
          (if ex = ConnectionError then collect rest (console_log (failed_line url) w)
           else (Some ex, w)))"

text \<open>
  The model runs the three phases one after the other; in the program the worker starts
  while the first loop is still submitting. The result is the exception that leaves
  \<^verbatim>\<open>download\<close>, if any.
\<close>

definition download :: "env \<Rightarrow> string list \<Rightarrow> path option \<Rightarrow> world \<Rightarrow> exn option \<times> world" where
  "download e urls dest_dir w =
     (let dir = (case dest_dir of None \<Rightarrow> ''.'' | Some d \<Rightarrow> d);
          (queued, w1) = submit_all e urls w;
          (results, w2) = run_pool e dir queued w1
      in collect results w2)"

text \<open>
  \<^verbatim>\<open>main\<close>, after \<^verbatim>\<open>argparse\<close> has split the command line into the value of \<^verbatim>\<open>--dest\<close>
  (\<open>None\<close> when the option is not given, and the default \<^verbatim>\<open>.\<close> is converted instead) and
  the URLs. \<^verbatim>\<open>parse_args\<close> applies \<^verbatim>\<open>directory_path\<close> to the destination once, lets its
  exception through, and exits when no URL is given.
\<close>

definition main :: "env \<Rightarrow> string option \<Rightarrow> string list \<Rightarrow> world \<Rightarrow> exn option \<times> world" where
  "main e dest urls w =
     (case directory_path (fs w) (case dest of None \<Rightarrow> ''.'' | Some d \<Rightarrow> d) of
        Inl ex \<Rightarrow> (Some ex, w)
      | Inr p \<Rightarrow> (if urls = [] then (Some SystemExit, w) else download e urls (Some p) w))"

subsection \<open>Notions used in the statements\<close>


subsection \<open>Sample inputs\<close>

text \<open>
  A small environment and a small world, for running the model on explicit inputs: a
  parser that knows one header, a MIME table with one entry, URLs of the form
  \<^verbatim>\<open>http://host/path\<close>, and a random generator whose draws are 0, 1, 2, ...
\<close>

definition sample_parser :: "string \<Rightarrow> (string \<times> string) list" where
  "sample_parser v =
     (if v = ''attachment; filename=report.pdf'' then [(''filename'', ''report.pdf'')] else [])"

definition sample_guess :: "string \<Rightarrow> string option" where
  "sample_guess m = (if m = ''text/plain'' then Some ''.txt'' else None)"

definition sample_int :: "string \<Rightarrow> int option" where
  "sample_int s = (if s = ''3'' then Some 3 else None)"

definition sample_path :: "string \<Rightarrow> string" where
  "sample_path url = dropWhile (\<lambda>c. c \<noteq> CHR ''/'') (drop 7 url)"

definition sample_env :: "(string \<Rightarrow> transport_error + response) \<Rightarrow> env" where
  "sample_env get =
     \<lparr>value_parser = sample_parser, guess_extension = sample_guess, py_int = sample_int,
      urlparse_path = sample_path, requests_get = get\<rparr>"

definition sample_response :: "string option \<Rightarrow> string option \<Rightarrow> event list \<Rightarrow> response" where
  "sample_response disposition ctype evs =
     \<lparr>content_disposition = disposition, content_length = None, content_type = ctype,
      body = evs\<rparr>"

definition sample_world :: "filesystem \<Rightarrow> bool \<Rightarrow> world" where
  "sample_world f flag =
     \<lparr>fs = f, done_event = flag, tasks = Map.empty, next_task = 0, console = [],
      rng = (\<lambda>i. i), requested = []\<rparr>"



section \<open>Properties\<close>

subsection \<open>What each operation leaves alone\<close>

lemma update_task_frame [simp]:
  "fs (update_task t g w) = fs w"
  "done_event (update_task t g w) = done_event w"
  "console (update_task t g w) = console w"
  "rng (update_task t g w) = rng w"
  "requested (update_task t g w) = requested w"
  "next_task (update_task t g w) = next_task w"
  by (simp_all add: update_task_def split: option.splits)

lemma update_task_tasks:
  "tasks (update_task t g w) t' = (if t' = t then map_option g (tasks w t) else tasks w t')"
  by (simp add: update_task_def split: option.splits)

lemma update_task_registered [simp]:
  "(tasks (update_task t g w) t' = None) = (tasks w t' = None)"
  by (simp add: update_task_tasks)

lemma write_file_frame [simp]:
  "done_event (write_file p d w) = done_event w"
  "console (write_file p d w) = console w"
  "rng (write_file p d w) = rng w"
  "requested (write_file p d w) = requested w"
  "next_task (write_file p d w) = next_task w"
  "tasks (write_file p d w) = tasks w"
  by (simp_all add: write_file_def split: option.splits node.splits)

lemma write_file_other: "q \<noteq> p \<Longrightarrow> fs (write_file p d w) q = fs w q"
  by (simp add: write_file_def split: option.splits node.splits)


lemma copy_chunks_frame:
  "copy_chunks t p evs w = (r, w') \<Longrightarrow>
     console w' = console w \<and> rng w' = rng w \<and> requested w' = requested w
     \<and> next_task w' = next_task w \<and> (\<forall>t'. (tasks w' t' = None) = (tasks w t' = None))
     \<and> (\<forall>q. q \<noteq> p \<longrightarrow> fs w' q = fs w q)"
proof (induction t p evs w rule: copy_chunks.induct)
  case (1 task_id p w)
  then show ?case by simp
next
  case (2 task_id p evs w)
  then show ?case by (simp add: handle_sigint_def)
next
  case (3 task_id p d evs w)
  then show ?case
    by (auto simp: update_advance_def write_file_other Let_def split: if_splits)
qed






subsection \<open>Cancellation\<close>




subsection \<open>The stages of a task\<close>

lemma choose_filename_frame:
  "choose_filename e t resp dflt w = (r, w') \<Longrightarrow>
     fs w' = fs w \<and> done_event w' = done_event w \<and> console w' = console w
     \<and> rng w' = rng w \<and> requested w' = requested w \<and> next_task w' = next_task w
     \<and> (\<forall>t'. (tasks w' t' = None) = (tasks w t' = None))
     \<and> (\<forall>t'. t' \<noteq> t \<longrightarrow> tasks w' t' = tasks w t')"
  by (auto simp: choose_filename_def update_filename_def update_task_tasks
           split: option.splits if_splits sum.splits)

lemma infer_filename_frame:
  "infer_filename e resp name w = (r, w') \<Longrightarrow>
     fs w' = fs w \<and> done_event w' = done_event w \<and> console w' = console w
     \<and> requested w' = requested w \<and> next_task w' = next_task w \<and> tasks w' = tasks w"
  by (auto simp: infer_filename_def Let_def split: option.splits if_splits prod.splits)


lemma remove_task_frame [simp]:
  "fs (remove_task t w) = fs w"
  "done_event (remove_task t w) = done_event w"
  "console (remove_task t w) = console w"
  "rng (remove_task t w) = rng w"
  "requested (remove_task t w) = requested w"
  "next_task (remove_task t w) = next_task w"
  "tasks (remove_task t w) t' = (if t' = t then None else tasks w t')"
  by (simp_all add: remove_task_def)

lemma console_log_frame [simp]:
  "fs (console_log l w) = fs w"
  "done_event (console_log l w) = done_event w"
  "console (console_log l w) = console w @ [l]"
  "rng (console_log l w) = rng w"
  "requested (console_log l w) = requested w"
  "next_task (console_log l w) = next_task w"
  "tasks (console_log l w) = tasks w"
  by (simp_all add: console_log_def)


subsection \<open>Which paths deregister the task\<close>



subsection \<open>Resolving the name\<close>

lemma randomword_length: "length (fst (randomword n r)) = n"
proof (induction n arbitrary: r)
  case 0
  then show ?case by simp
next
  case (Suc n)
  obtain c r1 where c: "choice ascii_lowercase r = (c, r1)"
    by (cases "choice ascii_lowercase r")
  obtain cs r2 where cs: "randomword n r1 = (cs, r2)"
    by (cases "randomword n r1")
  from Suc.IH [of r1] cs have "length cs = n" by simp
  with c cs show ?case by simp
qed

lemma choice_lowercase: "fst (choice ascii_lowercase r) \<in> set ascii_lowercase"
proof -
  have "r 0 mod length ascii_lowercase < length ascii_lowercase"
    by (simp add: ascii_lowercase_def)
  then show ?thesis
    unfolding choice_def fst_conv by (rule nth_mem)
qed

lemma randomword_lowercase: "set (fst (randomword n r)) \<subseteq> set ascii_lowercase"
proof (induction n arbitrary: r)
  case 0
  then show ?case by simp
next
  case (Suc n)
  obtain c r1 where c: "choice ascii_lowercase r = (c, r1)"
    by (cases "choice ascii_lowercase r")
  obtain cs r2 where cs: "randomword n r1 = (cs, r2)"
    by (cases "randomword n r1")
  from choice_lowercase [of r] c have "c \<in> set ascii_lowercase" by simp
  moreover from Suc.IH [of r1] cs have "set cs \<subseteq> set ascii_lowercase" by simp
  ultimately show ?case using c cs by simp
qed

lemma choose_filename_absent:
  "content_disposition resp = None \<or> content_disposition resp = Some [] \<Longrightarrow>
     choose_filename e t resp dflt w = (Inr dflt, w)"
  by (auto simp: choose_filename_def)

lemma choose_filename_no_parameter:
  "content_disposition resp = Some d \<Longrightarrow> d \<noteq> [] \<Longrightarrow>
   map_of (rev (value_parser e d)) ''filename'' = None \<Longrightarrow>
     choose_filename e t resp dflt w = (Inl KeyError, w)"
  by (simp add: choose_filename_def filename_from_content_disposition_def)

lemma infer_filename_unknown_type:
  "content_type resp = Some header \<Longrightarrow>
   guess_extension e (takeWhile (\<lambda>c. c \<noteq> CHR '';'') header) = None \<Longrightarrow>
     infer_filename e resp [] w
       = (Inr (''index.bin.'' @ fst (randomword 12 (rng w))),
          w\<lparr>rng := snd (randomword 12 (rng w))\<rparr>)"
  by (simp add: infer_filename_def Let_def split: prod.splits)

lemma infer_filename_no_header:
  "content_type resp = None \<Longrightarrow> infer_filename e resp [] w = (Inl AttributeError, w)"
  by (simp add: infer_filename_def)

lemma resolve_frame:
  assumes "resolve e t resp dflt w = (r, w')"
  shows "fs w' = fs w"
proof -
  obtain r0 w0 where c: "choose_filename e t resp dflt w = (r0, w0)"
    by (cases "choose_filename e t resp dflt w")
  note fr = choose_filename_frame [OF c]
  show ?thesis
  proof (cases r0)
    case (Inl ex)
    with assms c fr show ?thesis by (simp add: resolve_def)
  next
    case (Inr n)
    with assms c have "infer_filename e resp n w0 = (r, w')" by (simp add: resolve_def)
    from infer_filename_frame [OF this] fr show ?thesis by simp
  qed
qed

lemma choose_filename_fst:
  "fst (choose_filename e t resp dflt w) = fst (choose_filename e t' resp dflt w')"
  by (simp add: choose_filename_def split: option.splits sum.splits)

lemma infer_filename_fst:
  "fs w = fs w' \<Longrightarrow> rng w = rng w' \<Longrightarrow>
     fst (infer_filename e resp name w) = fst (infer_filename e resp name w')"
  by (simp add: infer_filename_def Let_def split: option.splits prod.splits)

lemma resolve_fst:
  assumes "fs w = fs w'" "rng w = rng w'"
  shows "fst (resolve e t resp dflt w) = fst (resolve e t resp dflt w')"
proof -
  obtain r1 w1 where c1: "choose_filename e t resp dflt w = (r1, w1)"
    by (cases "choose_filename e t resp dflt w")
  obtain r2 w2 where c2: "choose_filename e t resp dflt w' = (r2, w2)"
    by (cases "choose_filename e t resp dflt w'")
  from choose_filename_fst [of e t resp dflt w t w'] c1 c2 have r: "r2 = r1" by simp
  from choose_filename_frame [OF c1] choose_filename_frame [OF c2] assms
  have "fs w1 = fs w2" "rng w1 = rng w2" by simp_all
  from infer_filename_fst [OF this] c1 c2 r show ?thesis
    by (simp add: resolve_def split: sum.splits)
qed

lemma find_next_filename_keeps_rng:
  "\<not> isfile f name \<or> probe f name 1 \<noteq> None \<Longrightarrow> snd (find_next_filename f name r) = r"
  by (auto simp: find_next_filename_def)

text \<open>
  What a task does with a disposition header that names no file. When the
  Content-Disposition header is present and not empty and its parsed parameters have no
  \<^verbatim>\<open>filename\<close>, the task raises KeyError right after the request: nothing is caught, no
  other naming strategy is tried, nothing is written, and collecting that result makes
  \<^verbatim>\<open>download\<close> raise the KeyError. Only an absent or empty header makes the task take the
  name derived from the URL.
\<close>

theorem disposition_without_filename_raises:
  "(requests_get e url = Inr resp \<and> content_disposition resp = Some d \<and> d \<noteq> []
      \<and> map_of (rev (value_parser e d)) ''filename'' = None \<longrightarrow>
        copy_url e task_id url dir default_filename w
          = (Inl KeyError, w\<lparr>requested := requested w @ [url]\<rparr>)
        \<and> collect ((url, task_id, Inl KeyError) # rest) w2 = (Some KeyError, w2))
   \<and> (content_disposition resp = None \<or> content_disposition resp = Some [] \<longrightarrow>
        choose_filename e task_id resp default_filename w = (Inr default_filename, w))"
  by (auto simp: copy_url_def choose_filename_no_parameter choose_filename_absent)

theorem disposition_without_filename_raises_witness:
  "requests_get (sample_env (\<lambda>u. Inr (sample_response (Some ''inline'') (Some ''text/plain'') [Data ''ab''])))
       ''http://h/data.csv''
     = Inr (sample_response (Some ''inline'') (Some ''text/plain'') [Data ''ab''])
   \<and> content_disposition (sample_response (Some ''inline'') (Some ''text/plain'') [Data ''ab''])
       = Some ''inline''
   \<and> ''inline'' \<noteq> []
   \<and> map_of (rev (value_parser
         (sample_env (\<lambda>u. Inr (sample_response (Some ''inline'') (Some ''text/plain'') [Data ''ab''])))
         ''inline'')) ''filename'' = None
   \<and> fst (copy_url
         (sample_env (\<lambda>u. Inr (sample_response (Some ''inline'') (Some ''text/plain'') [Data ''ab''])))
         0 ''http://h/data.csv'' ''.'' ''data.csv'' (sample_world [''.'' \<mapsto> Dir] False))
       = Inl KeyError
   \<and> content_disposition (sample_response None (Some ''text/plain'') [Data ''ab'']) = None
   \<and> fst (choose_filename (sample_env (\<lambda>u. Inl Request_Failed)) 0
         (sample_response None (Some ''text/plain'') [Data ''ab'']) ''data.csv''
         (sample_world [''.'' \<mapsto> Dir] False))
       = Inr ''data.csv''"
proof -
  let ?r = "sample_response (Some ''inline'') (Some ''text/plain'') [Data ''ab'']"
  let ?e = "sample_env (\<lambda>u. Inr ?r)"
  let ?r2 = "sample_response None (Some ''text/plain'') [Data ''ab'']"
  let ?w = "sample_world [''.'' \<mapsto> Dir] False"
  have h: "requests_get ?e ''http://h/data.csv'' = Inr ?r" "content_disposition ?r = Some ''inline''"
    "''inline'' \<noteq> []" "map_of (rev (value_parser ?e ''inline'')) ''filename'' = None"
    by (simp_all add: sample_env_def sample_response_def sample_parser_def)
  have h2: "content_disposition ?r2 = None"
    by (simp add: sample_response_def)
  from disposition_without_filename_raises
         [of ?e "''http://h/data.csv''" ?r "''inline''" 0 "''.''" "''data.csv''" ?w] h
  have c1: "fst (copy_url ?e 0 ''http://h/data.csv'' ''.'' ''data.csv'' ?w) = Inl KeyError"
    by simp
  from disposition_without_filename_raises
         [of _ _ ?r2 _ 0 _ "''data.csv''" ?w, where e = "sample_env (\<lambda>u. Inl Request_Failed)"] h2
  have c2: "fst (choose_filename (sample_env (\<lambda>u. Inl Request_Failed)) 0 ?r2 ''data.csv'' ?w)
      = Inr ''data.csv''"
    by simp
  from h h2 c1 c2 show ?thesis by blast
qed

text \<open>
  C3 fails on the code. With the header \<^verbatim>\<open>Content-Disposition: inline\<close>, which has no
  filename parameter, the task does not fall back to the name \<^verbatim>\<open>data.csv\<close> from the URL: it
  raises KeyError, writes nothing, and the exception leaves \<^verbatim>\<open>download\<close>.
\<close>

theorem inline_disposition_raises:
  "content_disposition (sample_response (Some ''inline'') (Some ''text/plain'') [Data ''ab''])
     = Some ''inline''
   \<and> fst (copy_url
         (sample_env (\<lambda>u. Inr (sample_response (Some ''inline'') (Some ''text/plain'') [Data ''ab''])))
         0 ''http://h/data.csv'' ''.'' ''data.csv'' (sample_world [''.'' \<mapsto> Dir] False))
       = Inl KeyError
   \<and> fs (snd (copy_url
         (sample_env (\<lambda>u. Inr (sample_response (Some ''inline'') (Some ''text/plain'') [Data ''ab''])))
         0 ''http://h/data.csv'' ''.'' ''data.csv'' (sample_world [''.'' \<mapsto> Dir] False)))
       ''data.csv'' = None
   \<and> fst (download
         (sample_env (\<lambda>u. Inr (sample_response (Some ''inline'') (Some ''text/plain'') [Data ''ab''])))
         [''http://h/data.csv''] None (sample_world [''.'' \<mapsto> Dir] False))
       = Some KeyError"
  by code_simp

text \<open>
  C4 fails on a response without a Content-Type header: \<^verbatim>\<open>response.headers.get\<close> gives
  \<^verbatim>\<open>None\<close>, \<^verbatim>\<open>None.split\<close> raises AttributeError, and the exception leaves the task and the
  run. (With a header whose type has no known extension the name is \<^verbatim>\<open>index.bin.\<close> and
  twelve random lower-case letters, see \<open>infer_filename_unknown_type\<close>.)
\<close>

theorem missing_content_type_raises:
  "content_type (sample_response None None [Data ''ab'']) = None
   \<and> fst (copy_url (sample_env (\<lambda>u. Inr (sample_response None None [Data ''ab''])))
         0 ''http://h/'' ''.'' [] (sample_world [''.'' \<mapsto> Dir] False))
       = Inl AttributeError
   \<and> fst (main (sample_env (\<lambda>u. Inr (sample_response None None [Data ''ab''])))
         None [''http://h/''] (sample_world [''.'' \<mapsto> Dir] False))
       = Some AttributeError"
  by code_simp

text \<open>
  C8, as amended. Resolution never changes the directory. Resolving again gives the same
  name whenever the random generator is in the state it was in before, and that is so
  after every resolution that ends on the disposition filename, on the name from the URL,
  on the content-type candidate or on a numbered probe. (The two random-suffix fallbacks
  draw from the generator.)
\<close>

theorem resolve_repeatable_without_random:
  assumes "resolve e t resp dflt w = (Inr name, w1)"
  shows "fs w1 = fs w
       \<and> (rng w1 = rng w \<longrightarrow> fst (resolve e t resp dflt w1) = Inr name)
       \<and> ((\<exists>n. fst (choose_filename e t resp dflt w) = Inr n \<and> n \<noteq> [])
           \<or> (\<exists>header x. content_type resp = Some header
                 \<and> guess_extension e (takeWhile (\<lambda>c. c \<noteq> CHR '';'') header) = Some x
                 \<and> x \<noteq> []
                 \<and> (\<not> isfile (fs w) (''index'' @ x) \<or> probe (fs w) (''index'' @ x) 1 \<noteq> None))
          \<longrightarrow> rng w1 = rng w)"
proof (intro conjI impI)
  show f: "fs w1 = fs w" using assms by (rule resolve_frame)
  show "fst (resolve e t resp dflt w1) = Inr name" if "rng w1 = rng w"
    using resolve_fst [of w1 w e t resp dflt] f that assms by simp
next
  assume h: "(\<exists>n. fst (choose_filename e t resp dflt w) = Inr n \<and> n \<noteq> [])
           \<or> (\<exists>header x. content_type resp = Some header
                 \<and> guess_extension e (takeWhile (\<lambda>c. c \<noteq> CHR '';'') header) = Some x
                 \<and> x \<noteq> []
                 \<and> (\<not> isfile (fs w) (''index'' @ x) \<or> probe (fs w) (''index'' @ x) 1 \<noteq> None))"
  obtain r0 w0 where c: "choose_filename e t resp dflt w = (r0, w0)"
    by (cases "choose_filename e t resp dflt w")
  note fr = choose_filename_frame [OF c]
  from assms c obtain n where n: "r0 = Inr n" and i: "infer_filename e resp n w0 = (Inr name, w1)"
    by (auto simp: resolve_def split: sum.splits)
  show "rng w1 = rng w"
  proof (cases "n = []")
    case False
    with i fr show ?thesis by (simp add: infer_filename_def)
  next
    case True
    with h c n obtain header x where
      x: "content_type resp = Some header"
         "guess_extension e (takeWhile (\<lambda>c. c \<noteq> CHR '';'') header) = Some x" "x \<noteq> []"
         "\<not> isfile (fs w) (''index'' @ x) \<or> probe (fs w) (''index'' @ x) 1 \<noteq> None"
      by auto
    from find_next_filename_keeps_rng [OF x(4), of "rng w"] i True x(1-3) fr
    show ?thesis
      by (auto simp: infer_filename_def Let_def split: prod.splits)
  qed
qed

theorem resolve_repeatable_without_random_witness:
  "fst (resolve (sample_env (\<lambda>u. Inl Request_Failed)) 0
          (sample_response None (Some ''text/plain; charset=utf-8'') []) []
          (sample_world [''.'' \<mapsto> Dir] False)) = Inr ''index.txt''
   \<and> content_type (sample_response None (Some ''text/plain; charset=utf-8'') [])
       = Some ''text/plain; charset=utf-8''
   \<and> guess_extension (sample_env (\<lambda>u. Inl Request_Failed))
         (takeWhile (\<lambda>c. c \<noteq> CHR '';'') ''text/plain; charset=utf-8'') = Some ''.txt''
   \<and> \<not> isfile (fs (sample_world [''.'' \<mapsto> Dir] False)) (''index'' @ ''.txt'')
   \<and> rng (snd (resolve (sample_env (\<lambda>u. Inl Request_Failed)) 0
          (sample_response None (Some ''text/plain; charset=utf-8'') []) []
          (sample_world [''.'' \<mapsto> Dir] False)))
       = rng (sample_world [''.'' \<mapsto> Dir] False)
   \<and> fst (resolve (sample_env (\<lambda>u. Inl Request_Failed)) 0
          (sample_response None (Some ''text/plain; charset=utf-8'') []) []
          (snd (resolve (sample_env (\<lambda>u. Inl Request_Failed)) 0
             (sample_response None (Some ''text/plain; charset=utf-8'') []) []
             (sample_world [''.'' \<mapsto> Dir] False)))) = Inr ''index.txt''"
proof -
  let ?e = "sample_env (\<lambda>u. Inl Request_Failed)"
  let ?r = "sample_response None (Some ''text/plain; charset=utf-8'') []"
  let ?w = "sample_world [''.'' \<mapsto> Dir] False"
  have n: "fst (resolve ?e 0 ?r [] ?w) = Inr ''index.txt''"
    by code_simp
  then have run: "resolve ?e 0 ?r [] ?w = (Inr ''index.txt'', snd (resolve ?e 0 ?r [] ?w))"
    by (metis prod.collapse)
  have h: "content_type ?r = Some ''text/plain; charset=utf-8''"
    "guess_extension ?e (takeWhile (\<lambda>c. c \<noteq> CHR '';'') ''text/plain; charset=utf-8'') = Some ''.txt''"
    "''.txt'' \<noteq> []"
    "\<not> isfile (fs ?w) (''index'' @ ''.txt'')"
    by (simp_all add: sample_env_def sample_response_def sample_guess_def sample_world_def
                      isfile_def)
  from resolve_repeatable_without_random [OF run] h
  have c: "rng (snd (resolve ?e 0 ?r [] ?w)) = rng ?w
      \<and> fst (resolve ?e 0 ?r [] (snd (resolve ?e 0 ?r [] ?w))) = Inr ''index.txt''"
    by blast
  from n h c show ?thesis by blast
qed

text \<open>
  C8 as stated fails: with a content type that has no known extension, two resolutions in
  a row, in the same directory, give two different names.
\<close>

theorem random_suffix_counterexample:
  "fst (resolve (sample_env (\<lambda>u. Inl Request_Failed)) 0
          (sample_response None (Some ''application/x-unknown'') []) []
          (sample_world [''.'' \<mapsto> Dir] False)) = Inr ''index.bin.abcdefghijkl''
   \<and> fs (snd (resolve (sample_env (\<lambda>u. Inl Request_Failed)) 0
          (sample_response None (Some ''application/x-unknown'') []) []
          (sample_world [''.'' \<mapsto> Dir] False)))
       = fs (sample_world [''.'' \<mapsto> Dir] False)
   \<and> fst (resolve (sample_env (\<lambda>u. Inl Request_Failed)) 0
          (sample_response None (Some ''application/x-unknown'') []) []
          (snd (resolve (sample_env (\<lambda>u. Inl Request_Failed)) 0
             (sample_response None (Some ''application/x-unknown'') []) []
             (sample_world [''.'' \<mapsto> Dir] False)))) = Inr ''index.bin.mnopqrstuvwx''"
proof (intro conjI)
  show "fs (snd (resolve (sample_env (\<lambda>u. Inl Request_Failed)) 0
          (sample_response None (Some ''application/x-unknown'') []) []
          (sample_world [''.'' \<mapsto> Dir] False)))
       = fs (sample_world [''.'' \<mapsto> Dir] False)"
    by (rule resolve_frame [OF prod.collapse [symmetric]])
qed code_simp+

subsection \<open>Existing files\<close>

lemma probe_Some:
  "probe f name i = Some n \<Longrightarrow>
     \<not> isfile f n
     \<and> (\<exists>j. i \<le> j \<and> j < 1000 \<and> n = numbered name j
              \<and> (\<forall>k. i \<le> k \<and> k < j \<longrightarrow> isfile f (numbered name k)))"
proof (induction f name i rule: probe.induct)
  case (1 f filename i)
  show ?case
  proof (cases "i < 1000 \<and> isfile f (numbered filename i)")
    case True
    with "1.prems" have "probe f filename (Suc i) = Some n"
      by (simp add: probe.simps [of f filename i])
    with "1.IH" True obtain j where j: "\<not> isfile f n" "Suc i \<le> j" "j < 1000"
      "n = numbered filename j" "\<forall>k. Suc i \<le> k \<and> k < j \<longrightarrow> isfile f (numbered filename k)"
      by auto
    have "\<forall>k. i \<le> k \<and> k < j \<longrightarrow> isfile f (numbered filename k)"
    proof (intro allI impI)
      fix k assume "i \<le> k \<and> k < j"
      then have "k = i \<or> (Suc i \<le> k \<and> k < j)" by auto
      with True j(5) show "isfile f (numbered filename k)" by auto
    qed
    with j show ?thesis by (intro conjI exI [of _ j]) auto
  next
    case False
    with "1.prems" have "i < 1000" "\<not> isfile f (numbered filename i)" "n = numbered filename i"
      by (auto simp: probe.simps [of f filename i] split: if_splits)
    then show ?thesis by (intro conjI exI [of _ i]) auto
  qed
qed

lemma probe_None:
  "probe f name i = None \<Longrightarrow> i \<le> k \<Longrightarrow> k < 1000 \<Longrightarrow> isfile f (numbered name k)"
proof (induction f name i rule: probe.induct)
  case (1 f filename i)
  from "1.prems" have i: "i < 1000" by simp
  with "1.prems"(1) have here: "isfile f (numbered filename i)"
    and rest: "probe f filename (Suc i) = None"
    by (auto simp: probe.simps [of f filename i] split: if_splits)
  show ?case
  proof (cases "k = i")
    case True
    with here show ?thesis by simp
  next
    case False
    with "1.prems" have "Suc i \<le> k" by simp
    with "1.IH" i here rest "1.prems"(3) show ?thesis by simp
  qed
qed







lemma find_next_filename_unused:
  "\<not> isfile f name \<Longrightarrow> find_next_filename f name r = (name, r)"
  by (simp add: find_next_filename_def)

lemma find_next_filename_first_probe:
  assumes "isfile f name" and "probe f name 1 \<noteq> None"
  shows "\<exists>j. 1 \<le> j \<and> j < 1000 \<and> find_next_filename f name r = (numbered name j, r)
           \<and> \<not> isfile f (numbered name j)
           \<and> (\<forall>k. 1 \<le> k \<and> k < j \<longrightarrow> isfile f (numbered name k))"
proof -
  from assms(2) obtain n where n: "probe f name 1 = Some n" by auto
  from probe_Some [OF n] obtain j where
    "1 \<le> j" "j < 1000" "n = numbered name j" "\<not> isfile f n"
    "\<forall>k. 1 \<le> k \<and> k < j \<longrightarrow> isfile f (numbered name k)"
    by auto
  with assms(1) n show ?thesis
    by (intro exI [of _ j]) (simp add: find_next_filename_def)
qed

lemma find_next_filename_all_taken:
  assumes "isfile f name" and "\<forall>k. 1 \<le> k \<and> k < 1000 \<longrightarrow> isfile f (numbered name k)"
  shows "find_next_filename f name r
           = (name @ ''.'' @ fst (randomword 16 r), snd (randomword 16 r))"
proof -
  have "probe f name 1 = None"
  proof (rule ccontr)
    assume "probe f name 1 \<noteq> None"
    then obtain n where "probe f name 1 = Some n" by auto
    from probe_Some [OF this] assms(2) show False by auto
  qed
  with assms(1) show ?thesis
    by (simp add: find_next_filename_def split: prod.splits)
qed

text \<open>
  C2 fails when the destination is not the working directory. \<^verbatim>\<open>find_next_filename\<close> is
  called with the bare name, so \<^verbatim>\<open>os.path.isfile\<close> probes the working directory, while the
  file is opened in the destination: with \<^verbatim>\<open>index.txt\<close> present in the destination
  \<^verbatim>\<open>/tmp/out\<close> and absent from the working directory, the name stays \<^verbatim>\<open>index.txt\<close> and the
  existing file is overwritten; no \<^verbatim>\<open>index.txt.1\<close> is made. (About the directory that is
  probed, the claim holds: \<open>find_next_filename_unused\<close>,
  \<open>find_next_filename_first_probe\<close>, \<open>find_next_filename_all_taken\<close>.)
\<close>

theorem probe_misses_destination:
  "fs (sample_world [''.'' \<mapsto> Dir, ''/tmp/out'' \<mapsto> Dir, ''/tmp/out/index.txt'' \<mapsto> File ''old''] False)
       ''index.txt'' = None
   \<and> isfile (fs (sample_world [''.'' \<mapsto> Dir, ''/tmp/out'' \<mapsto> Dir,
                                  ''/tmp/out/index.txt'' \<mapsto> File ''old''] False))
         ''/tmp/out/index.txt''
   \<and> fst (main (sample_env (\<lambda>u. Inr (sample_response None (Some ''text/plain'') [Data ''new''])))
         (Some ''/tmp/out'') [''http://h/'']
         (sample_world [''.'' \<mapsto> Dir, ''/tmp/out'' \<mapsto> Dir, ''/tmp/out/index.txt'' \<mapsto> File ''old''] False))
       = None
   \<and> fs (snd (main (sample_env (\<lambda>u. Inr (sample_response None (Some ''text/plain'') [Data ''new''])))
         (Some ''/tmp/out'') [''http://h/'']
         (sample_world [''.'' \<mapsto> Dir, ''/tmp/out'' \<mapsto> Dir, ''/tmp/out/index.txt'' \<mapsto> File ''old''] False)))
       ''/tmp/out/index.txt'' = Some (File ''new'')
   \<and> fs (snd (main (sample_env (\<lambda>u. Inr (sample_response None (Some ''text/plain'') [Data ''new''])))
         (Some ''/tmp/out'') [''http://h/'']
         (sample_world [''.'' \<mapsto> Dir, ''/tmp/out'' \<mapsto> Dir, ''/tmp/out/index.txt'' \<mapsto> File ''old''] False)))
       ''/tmp/out/index.txt.1'' = None"
  by code_simp




subsection \<open>The orchestrator\<close>

lemma copy_chunks_other_tasks:
  "copy_chunks t p evs w = (r, w') \<Longrightarrow> t' \<noteq> t \<Longrightarrow> tasks w' t' = tasks w t'"
proof (induction t p evs w rule: copy_chunks.induct)
  case (1 task_id p w)
  then show ?case by simp
next
  case (2 task_id p evs w)
  then show ?case by (simp add: handle_sigint_def)
next
  case (3 task_id p d evs w)
  then show ?case
    by (auto simp: update_advance_def update_task_tasks Let_def split: if_splits)
qed

lemma write_response_frame:
  assumes "write_response t url p len evs w = (r, w')"
  shows "requested w' = requested w \<and> next_task w' = next_task w
       \<and> (\<forall>t'. t' \<noteq> t \<longrightarrow> tasks w' t' = tasks w t')
       \<and> (console w' = console w \<or> console w' = console w @ [downloaded_line url p])"
proof (cases "open_wb (fs w) p")
  case (Inl ex)
  with assms show ?thesis
    by (auto simp: write_response_def update_total_def update_task_tasks)
next
  case (Inr f)
  let ?w2 = "start_task t ((update_total t len w)\<lparr>fs := f\<rparr>)"
  obtain o3 w3 where c: "copy_chunks t p evs ?w2 = (o3, w3)"
    by (cases "copy_chunks t p evs ?w2")
  have w2: "requested ?w2 = requested w" "next_task ?w2 = next_task w" "console ?w2 = console w"
    "\<forall>t'. t' \<noteq> t \<longrightarrow> tasks ?w2 t' = tasks w t'"
    by (simp_all add: start_task_def update_total_def update_task_tasks)
  from copy_chunks_frame [OF c] copy_chunks_other_tasks [OF c] w2
  have w3: "requested w3 = requested w" "next_task w3 = next_task w" "console w3 = console w"
    "\<forall>t'. t' \<noteq> t \<longrightarrow> tasks w3 t' = tasks w t'"
    by simp_all
  from assms Inr c w3 show ?thesis
    by (cases o3) (auto simp: write_response_def update_total_def Let_def)
qed

lemma copy_url_frame:
  assumes "copy_url e t url dir dflt w = (r, w')"
  shows "requested w' = requested w @ [url] \<and> next_task w' = next_task w
       \<and> (\<forall>t'. t' \<noteq> t \<longrightarrow> tasks w' t' = tasks w t')
       \<and> (console w' = console w \<or> (\<exists>p. console w' = console w @ [downloaded_line url p]))"
proof (cases "requests_get e url")
  case (Inl err)
  with assms show ?thesis
    by (cases err) (auto simp: copy_url_def)
next
  case (Inr resp)
  let ?w0 = "w\<lparr>requested := requested w @ [url]\<rparr>"
  obtain r1 w1 where c1: "choose_filename e t resp dflt ?w0 = (r1, w1)"
    by (cases "choose_filename e t resp dflt ?w0")
  from choose_filename_frame [OF c1]
  have f1: "requested w1 = requested w @ [url]" "next_task w1 = next_task w"
    "console w1 = console w" "\<forall>t'. t' \<noteq> t \<longrightarrow> tasks w1 t' = tasks w t'"
    by simp_all
  show ?thesis
  proof (cases r1)
    case (Inl ex)
    with assms Inr c1 have "w' = w1" by (simp add: copy_url_def)
    with f1 show ?thesis by simp
  next
    case name: (Inr name)
    show ?thesis
    proof (cases "read_content_length e resp")
      case (Inl ex)
      with assms Inr c1 name have "w' = w1" by (simp add: copy_url_def)
      with f1 show ?thesis by simp
    next
      case len: (Inr len)
      obtain r2 w2 where c2: "infer_filename e resp name w1 = (r2, w2)"
        by (cases "infer_filename e resp name w1")
      from infer_filename_frame [OF c2] f1
      have f2: "requested w2 = requested w @ [url]" "next_task w2 = next_task w"
        "console w2 = console w" "\<forall>t'. t' \<noteq> t \<longrightarrow> tasks w2 t' = tasks w t'"
        by simp_all
      show ?thesis
      proof (cases r2)
        case (Inl ex)
        with assms Inr c1 name len c2 have "w' = w2" by (simp add: copy_url_def)
        with f2 show ?thesis by simp
      next
        case name2: (Inr name2)
        with assms Inr c1 name len c2
        have "write_response t url (joinpath dir name2) len (body resp) w2 = (r, w')"
          by (simp add: copy_url_def)
        from write_response_frame [OF this] f2 show ?thesis by auto
      qed
    qed
  qed
qed

lemma copy_url_connection_failed:
  "requests_get e url = Inl Connection_Failed \<Longrightarrow>
     copy_url e t url dir dflt w
       = (Inl ConnectionError, remove_task t (w\<lparr>requested := requested w @ [url]\<rparr>))"
  by (simp add: copy_url_def)

lemma copy_url_exceptions:
  assumes "copy_url e t url dir dflt w = (Inl ex, w')"
  shows "ex \<noteq> DestinationDoesNotExist \<and> ex \<noteq> DestinationIsNotDirectory
       \<and> (ex = ConnectionError \<longrightarrow> requests_get e url = Inl Connection_Failed)"
proof (cases "requests_get e url")
  case (Inl err)
  with assms show ?thesis
    by (cases err) (auto simp: copy_url_def)
next
  case (Inr resp)
  let ?w0 = "w\<lparr>requested := requested w @ [url]\<rparr>"
  obtain r1 w1 where c1: "choose_filename e t resp dflt ?w0 = (r1, w1)"
    by (cases "choose_filename e t resp dflt ?w0")
  show ?thesis
  proof (cases r1)
    case (Inl ex1)
    with assms Inr c1 have "ex = ex1" by (simp add: copy_url_def)
    moreover from c1 Inl have "ex1 = KeyError"
      by (auto simp: choose_filename_def filename_from_content_disposition_def
               split: option.splits if_splits)
    ultimately show ?thesis by simp
  next
    case name: (Inr name)
    show ?thesis
    proof (cases "read_content_length e resp")
      case (Inl ex1)
      with assms Inr c1 name have "ex = ex1" by (simp add: copy_url_def)
      moreover from Inl have "ex1 = ValueError"
        by (auto simp: read_content_length_def split: option.splits if_splits)
      ultimately show ?thesis by simp
    next
      case len: (Inr len)
      obtain r2 w2 where c2: "infer_filename e resp name w1 = (r2, w2)"
        by (cases "infer_filename e resp name w1")
      show ?thesis
      proof (cases r2)
        case (Inl ex1)
        with assms Inr c1 name len c2 have "ex = ex1" by (simp add: copy_url_def)
        moreover from c2 Inl have "ex1 = AttributeError"
          by (auto simp: infer_filename_def Let_def split: option.splits if_splits prod.splits)
        ultimately show ?thesis by simp
      next
        case name2: (Inr name2)
        with assms Inr c1 name len c2
        have wr: "write_response t url (joinpath dir name2) len (body resp) w2 = (Inl ex, w')"
          by (simp add: copy_url_def)
        then have "open_wb (fs w2) (joinpath dir name2) = Inl ex"
          by (auto simp: write_response_def update_total_def Let_def
                   split: sum.splits prod.splits outcome.splits)
        then show ?thesis
          by (auto simp: open_wb_def split: option.splits node.splits)
      qed
    qed
  qed
qed


lemma run_pool_spec:
  "run_pool e dir q w = (rs, w') \<Longrightarrow>
     requested w' = requested w @ map (\<lambda>x. fst (snd x)) q
     \<and> map fst rs = map (\<lambda>x. fst (snd x)) q
     \<and> (\<forall>t. t \<notin> fst ` set q \<longrightarrow> tasks w' t = tasks w t)
     \<and> (\<forall>l \<in> set (console w'). l \<in> set (console w) \<or> (\<exists>u p. l = downloaded_line u p))
     \<and> (\<forall>u t res. (u, t, res) \<in> set rs \<longrightarrow>
           (res = Inl ConnectionError) = (requests_get e u = Inl Connection_Failed)
           \<and> res \<noteq> Inl DestinationDoesNotExist \<and> res \<noteq> Inl DestinationIsNotDirectory)"
proof (induction q arbitrary: w rs w')
  case Nil
  then show ?case by auto
next
  case (Cons x q)
  obtain t url dflt where x: "x = (t, url, dflt)" by (cases x)
  obtain r w1 where c: "copy_url e t url dir dflt w = (r, w1)"
    by (cases "copy_url e t url dir dflt w")
  obtain rs2 w2 where p: "run_pool e dir q w1 = (rs2, w2)"
    by (cases "run_pool e dir q w1")
  from Cons.prems x c p have rs: "rs = (url, t, r) # rs2" and w': "w' = w2"
    by simp_all
  note fr = copy_url_frame [OF c]
  note ih = Cons.IH [OF p]
  have head: "(r = Inl ConnectionError) = (requests_get e url = Inl Connection_Failed)
      \<and> r \<noteq> Inl DestinationDoesNotExist \<and> r \<noteq> Inl DestinationIsNotDirectory"
  proof (cases r)
    case (Inl ex)
    with c copy_url_exceptions [of e t url dir dflt w ex w1]
         copy_url_connection_failed [of e url t dir dflt w]
    show ?thesis by auto
  next
    case (Inr b)
    with c copy_url_connection_failed [of e url t dir dflt w] show ?thesis by auto
  qed
  have "requested w' = requested w @ map (\<lambda>x. fst (snd x)) (x # q)"
    using ih fr x w' by simp
  moreover have "map fst rs = map (\<lambda>x. fst (snd x)) (x # q)"
    using ih rs x by simp
  moreover have "\<forall>t'. t' \<notin> fst ` set (x # q) \<longrightarrow> tasks w' t' = tasks w t'"
    using ih fr x w' by auto
  moreover have "\<forall>l \<in> set (console w'). l \<in> set (console w) \<or> (\<exists>u p. l = downloaded_line u p)"
  proof
    fix l assume "l \<in> set (console w')"
    with ih w' have "l \<in> set (console w1) \<or> (\<exists>u p. l = downloaded_line u p)" by blast
    with fr show "l \<in> set (console w) \<or> (\<exists>u p. l = downloaded_line u p)" by auto
  qed
  moreover have "\<forall>u t res. (u, t, res) \<in> set rs \<longrightarrow>
           (res = Inl ConnectionError) = (requests_get e u = Inl Connection_Failed)
           \<and> res \<noteq> Inl DestinationDoesNotExist \<and> res \<noteq> Inl DestinationIsNotDirectory"
    using ih head rs by auto
  ultimately show ?case by blast
qed






lemma collect_exception:
  "collect rs w = (Some ex, w') \<Longrightarrow> \<exists>u t. (u, t, Inl ex) \<in> set rs"
proof (induction rs w rule: collect.induct)
  case (1 w)
  then show ?case by simp
next
  case (2 url task_id res rest w)
  then show ?case
    by (cases res) (auto split: if_splits)
qed



lemma download_stages:
  assumes "download e urls dest w = (r, w')"
  obtains q w1 rs w2 where
    "submit_all e urls w = (q, w1)"
    "run_pool e (case dest of None \<Rightarrow> ''.'' | Some d \<Rightarrow> d) q w1 = (rs, w2)"
    "collect rs w2 = (r, w')"
proof -
  obtain q w1 where s: "submit_all e urls w = (q, w1)"
    by (cases "submit_all e urls w")
  obtain rs w2 where p: "run_pool e (case dest of None \<Rightarrow> ''.'' | Some d \<Rightarrow> d) q w1 = (rs, w2)"
    by (cases "run_pool e (case dest of None \<Rightarrow> ''.'' | Some d \<Rightarrow> d) q w1")
  from assms s p have "collect rs w2 = (r, w')"
    by (simp add: download_def)
  with s p that show ?thesis by blast
qed

lemma download_never_checks_destination:
  "fst (download e urls dest w) \<noteq> Some DestinationDoesNotExist
   \<and> fst (download e urls dest w) \<noteq> Some DestinationIsNotDirectory"
proof -
  obtain r w' where d: "download e urls dest w = (r, w')"
    by (cases "download e urls dest w")
  from d obtain q w1 rs w2 where
    p: "run_pool e (case dest of None \<Rightarrow> ''.'' | Some d \<Rightarrow> d) q w1 = (rs, w2)"
    and c: "collect rs w2 = (r, w')"
    by (rule download_stages)
  have "r \<noteq> Some ex" if "ex = DestinationDoesNotExist \<or> ex = DestinationIsNotDirectory" for ex
  proof
    assume "r = Some ex"
    with c collect_exception obtain u t where "(u, t, Inl ex) \<in> set rs" by blast
    with run_pool_spec [OF p] that show False by blast
  qed
  with d show ?thesis by simp
qed

text \<open>
  C5, as amended. The destination is validated by the entry point, not by the
  orchestrator: \<^verbatim>\<open>main\<close> (through the argument parser) applies \<^verbatim>\<open>directory_path\<close> to the
  destination once, before \<^verbatim>\<open>download\<close> is called. For a destination that does not exist
  (respectively exists but is not a directory) \<^verbatim>\<open>main\<close> raises DestinationDoesNotExist
  (respectively DestinationIsNotDirectory) and leaves the world as it was: no task is
  registered and no request is sent. \<^verbatim>\<open>main\<close> raises these two exceptions in no other
  case, and \<^verbatim>\<open>download\<close> never raises them: no task repeats the check.
\<close>

theorem destination_checked_once_by_main:
  assumes "d = (case dest of None \<Rightarrow> ''.'' | Some x \<Rightarrow> x)"
  shows "(\<not> exists_path (fs w) d \<longrightarrow> main e dest urls w = (Some DestinationDoesNotExist, w))
       \<and> (exists_path (fs w) d \<and> \<not> is_dir (fs w) d \<longrightarrow>
            main e dest urls w = (Some DestinationIsNotDirectory, w))
       \<and> (fst (main e dest urls w) = Some DestinationDoesNotExist \<longrightarrow> \<not> exists_path (fs w) d)
       \<and> (fst (main e dest urls w) = Some DestinationIsNotDirectory \<longrightarrow>
            exists_path (fs w) d \<and> \<not> is_dir (fs w) d)
       \<and> fst (download e urls dir w) \<noteq> Some DestinationDoesNotExist
       \<and> fst (download e urls dir w) \<noteq> Some DestinationIsNotDirectory"
proof -
  have valid: "main e dest urls w
        = (if urls = [] then (Some SystemExit, w) else download e urls (Some d) w)"
    if "exists_path (fs w) d" "is_dir (fs w) d"
    using that assms by (simp add: main_def directory_path_def)
  have a: "main e dest urls w = (Some DestinationDoesNotExist, w)" if "\<not> exists_path (fs w) d"
    using that assms by (simp add: main_def directory_path_def)
  have b: "main e dest urls w = (Some DestinationIsNotDirectory, w)"
    if "exists_path (fs w) d" "\<not> is_dir (fs w) d"
    using that assms by (simp add: main_def directory_path_def)
  note n = download_never_checks_destination
  have c: "\<not> exists_path (fs w) d" if "fst (main e dest urls w) = Some DestinationDoesNotExist"
  proof (rule ccontr)
    assume "\<not> \<not> exists_path (fs w) d"
    then have ex: "exists_path (fs w) d" by simp
    show False
    proof (cases "is_dir (fs w) d")
      case True
      from valid [OF ex True] that n [of e urls "Some d" w] show False
        by (simp split: if_splits)
    next
      case False
      from b [OF ex False] that show False by simp
    qed
  qed
  have d: "exists_path (fs w) d \<and> \<not> is_dir (fs w) d"
    if "fst (main e dest urls w) = Some DestinationIsNotDirectory"
  proof (rule ccontr)
    assume neg: "\<not> (exists_path (fs w) d \<and> \<not> is_dir (fs w) d)"
    show False
    proof (cases "exists_path (fs w) d")
      case False
      from a [OF False] that show False by simp
    next
      case True
      with neg have "is_dir (fs w) d" by simp
      from valid [OF True this] that n [of e urls "Some d" w] show False
        by (simp split: if_splits)
    qed
  qed
  from a b c d n [of e urls dir w] show ?thesis by blast
qed

theorem destination_checked_once_by_main_witness:
  "\<not> exists_path (fs (sample_world [''.'' \<mapsto> Dir, ''notes.txt'' \<mapsto> File ''x''] False)) ''/missing''
   \<and> fst (main (sample_env (\<lambda>u. Inr (sample_response None (Some ''text/plain'') [Data ''ab''])))
         (Some ''/missing'') [''http://h/a.txt'']
         (sample_world [''.'' \<mapsto> Dir, ''notes.txt'' \<mapsto> File ''x''] False))
       = Some DestinationDoesNotExist
   \<and> requested (snd (main (sample_env (\<lambda>u. Inr (sample_response None (Some ''text/plain'') [Data ''ab''])))
         (Some ''/missing'') [''http://h/a.txt'']
         (sample_world [''.'' \<mapsto> Dir, ''notes.txt'' \<mapsto> File ''x''] False))) = []
   \<and> next_task (snd (main (sample_env (\<lambda>u. Inr (sample_response None (Some ''text/plain'') [Data ''ab''])))
         (Some ''/missing'') [''http://h/a.txt'']
         (sample_world [''.'' \<mapsto> Dir, ''notes.txt'' \<mapsto> File ''x''] False))) = 0
   \<and> exists_path (fs (sample_world [''.'' \<mapsto> Dir, ''notes.txt'' \<mapsto> File ''x''] False)) ''notes.txt''
   \<and> \<not> is_dir (fs (sample_world [''.'' \<mapsto> Dir, ''notes.txt'' \<mapsto> File ''x''] False)) ''notes.txt''
   \<and> fst (main (sample_env (\<lambda>u. Inr (sample_response None (Some ''text/plain'') [Data ''ab''])))
         (Some ''notes.txt'') [''http://h/a.txt'']
         (sample_world [''.'' \<mapsto> Dir, ''notes.txt'' \<mapsto> File ''x''] False))
       = Some DestinationIsNotDirectory
   \<and> requested (snd (main (sample_env (\<lambda>u. Inr (sample_response None (Some ''text/plain'') [Data ''ab''])))
         (Some ''notes.txt'') [''http://h/a.txt'']
         (sample_world [''.'' \<mapsto> Dir, ''notes.txt'' \<mapsto> File ''x''] False))) = []"
proof -
  let ?e = "sample_env (\<lambda>u. Inr (sample_response None (Some ''text/plain'') [Data ''ab'']))"
  let ?w = "sample_world [''.'' \<mapsto> Dir, ''notes.txt'' \<mapsto> File ''x''] False"
  have h: "\<not> exists_path (fs ?w) ''/missing''" "exists_path (fs ?w) ''notes.txt''"
    "\<not> is_dir (fs ?w) ''notes.txt''"
    by (simp_all add: sample_world_def exists_path_def is_dir_def)
  have w: "requested ?w = []" "next_task ?w = 0"
    by (simp_all add: sample_world_def)
  have d1: "''/missing'' = (case Some ''/missing'' of None \<Rightarrow> ''.'' | Some x \<Rightarrow> x)"
    and d2: "''notes.txt'' = (case Some ''notes.txt'' of None \<Rightarrow> ''.'' | Some x \<Rightarrow> x)"
    by simp_all
  from destination_checked_once_by_main [OF d1, of ?w ?e "[''http://h/a.txt'']"] h
  have m1: "main ?e (Some ''/missing'') [''http://h/a.txt''] ?w = (Some DestinationDoesNotExist, ?w)"
    by blast
  from destination_checked_once_by_main [OF d2, of ?w ?e "[''http://h/a.txt'']"] h
  have m2: "main ?e (Some ''notes.txt'') [''http://h/a.txt''] ?w = (Some DestinationIsNotDirectory, ?w)"
    by blast
  from h w show ?thesis
    unfolding m1 m2 fst_conv snd_conv by blast
qed

text \<open>
  C5 as stated fails for the orchestrator \<^verbatim>\<open>download\<close> itself, which does no validation:
  called with a destination that does not exist, it registers the task, sends the request,
  and fails only when the file is opened, with FileNotFoundError.
\<close>

theorem download_does_not_validate_counterexample:
  "\<not> exists_path (fs (sample_world [''.'' \<mapsto> Dir] False)) ''/missing''
   \<and> fst (download (sample_env (\<lambda>u. Inr (sample_response None (Some ''text/plain'') [Data ''ab''])))
         [''http://h/a.txt''] (Some ''/missing'') (sample_world [''.'' \<mapsto> Dir] False))
       = Some FileNotFoundError
   \<and> requested (snd (download
         (sample_env (\<lambda>u. Inr (sample_response None (Some ''text/plain'') [Data ''ab''])))
         [''http://h/a.txt''] (Some ''/missing'') (sample_world [''.'' \<mapsto> Dir] False)))
       = [''http://h/a.txt'']
   \<and> next_task (snd (download
         (sample_env (\<lambda>u. Inr (sample_response None (Some ''text/plain'') [Data ''ab''])))
         [''http://h/a.txt''] (Some ''/missing'') (sample_world [''.'' \<mapsto> Dir] False))) = 1"
  by code_simp




end
